theory Spec2Isabelle
  imports Main "HOL-Library.Sublist"
begin

section \<open>Errors and message formatting\<close>

text \<open>
  A Go \<^verbatim>\<open>error\<close> is either nil or a value whose \<^verbatim>\<open>Error()\<close> method yields a message.
  The orchestration code only ever tests an error against nil and formats it with
  \<^verbatim>\<open>%v\<close>, so an error is modelled by its message: \<open>None\<close> is nil.
\<close>

type_synonym error = "string option"

text \<open>
  The operands this repository hands to \<^verbatim>\<open>fmt.Sprintf\<close> and \<^verbatim>\<open>fmt.Errorf\<close>: strings
  (a launcher passed to \<^verbatim>\<open>%s\<close> is a Stringer and prints as its \<^verbatim>\<open>String()\<close>), errors, and
  a \<^verbatim>\<open>[]interface{}\<close> slice (what a variadic parameter is when it is passed on without
  \<^verbatim>\<open>...\<close>).
\<close>

datatype fmt_arg = AStr string | AErr error | ASlice "fmt_arg list"

text \<open>
  The fragment of Go's \<^verbatim>\<open>fmt\<close> package the repository uses: the verbs \<^verbatim>\<open>%s\<close> and
  \<^verbatim>\<open>%v\<close>, the literal \<^verbatim>\<open>%%\<close>, and fmt's reports of a missing operand
  (\<^verbatim>\<open>%!v(MISSING)\<close>) and of surplus operands (\<^verbatim>\<open>%!(EXTRA type=value)\<close>). An operand
  nested in a slice prints through its \<^verbatim>\<open>Error()\<close> method or as the string it is, a nil
  element as \<^verbatim>\<open><nil>\<close>, and the slice as its elements between brackets, separated by
  one space. Flags, widths and every other verb are outside the fragment: for them the
  model's output is a placeholder, not what Go prints, and no result below depends on it.
\<close>

fun printValue :: "fmt_arg \<Rightarrow> string" and printElems :: "fmt_arg list \<Rightarrow> string" where
  "printValue (AStr s) = s"
| "printValue (AErr None) = ''<nil>''"
| "printValue (AErr (Some m)) = m"
| "printValue (ASlice xs) = ''['' @ printElems xs @ '']''"
| "printElems [] = []"
| "printElems [x] = printValue x"
| "printElems (x # y # ys) = printValue x @ '' '' @ printElems (y # ys)"

fun typeString :: "fmt_arg \<Rightarrow> string" where
  "typeString (AStr s) = ''string''"
| "typeString (AErr e) = ''*errors.errorString''"
| "typeString (ASlice xs) = ''[]interface {}''"

fun printArg :: "fmt_arg \<Rightarrow> char \<Rightarrow> string" where
  "printArg (AErr None) verb =
     (if verb = CHR ''v'' then ''<nil>'' else ''%!'' @ [verb] @ ''(<nil>)'')"
| "printArg arg verb =
     (if verb = CHR ''v'' \<or> verb = CHR ''s'' then printValue arg
      else ''%!'' @ [verb] @ ''('' @ typeString arg @ ''='' @ printValue arg @ '')'')"

fun extraArg :: "fmt_arg \<Rightarrow> string" where
  "extraArg (AErr None) = ''<nil>''"
| "extraArg arg = typeString arg @ ''='' @ printArg arg (CHR ''v'')"

fun extraList :: "fmt_arg list \<Rightarrow> string" where
  "extraList [] = []"
| "extraList [a] = extraArg a"
| "extraList (a # b # bs) = extraArg a @ '', '' @ extraList (b # bs)"

definition extraArgs :: "fmt_arg list \<Rightarrow> string" where
  "extraArgs args = (if args = [] then [] else ''%!(EXTRA '' @ extraList args @ '')'')"

fun doPrintf :: "string \<Rightarrow> fmt_arg list \<Rightarrow> string" where
  "doPrintf [] args = extraArgs args"
| "doPrintf [c] args =
     (if c = CHR ''%'' then ''%!(NOVERB)'' @ extraArgs args else c # extraArgs args)"
| "doPrintf (c # v # pat) args =
     (if c \<noteq> CHR ''%'' then c # doPrintf (v # pat) args
      else if v = CHR ''%'' then CHR ''%'' # doPrintf pat args
      else (case args of
              [] \<Rightarrow> ''%!'' @ [v] @ ''(MISSING)'' @ doPrintf pat []
            | a # rest \<Rightarrow> printArg a v @ doPrintf pat rest))"

definition fmt_Sprintf :: "string \<Rightarrow> fmt_arg list \<Rightarrow> string" where
  "fmt_Sprintf pat args = doPrintf pat args"

text \<open>\<^verbatim>\<open>fmt.Errorf\<close> always returns a non-nil error carrying the formatted message.\<close>

definition fmt_Errorf :: "string \<Rightarrow> fmt_arg list \<Rightarrow> error" where
  "fmt_Errorf pat args = Some (fmt_Sprintf pat args)"

section \<open>The error aggregator\<close>

text \<open>
  \<^verbatim>\<open>joinerrs\<close>: the loop appends separator and message for every non-nil error; the
  result drops the leading separator, and is nil when nothing was appended.
\<close>

fun joinerrs_loop :: "string \<Rightarrow> string \<Rightarrow> error list \<Rightarrow> string" where
  "joinerrs_loop sep errstr [] = errstr"
| "joinerrs_loop sep errstr (e # errs) =
     joinerrs_loop sep
       (if e \<noteq> None then errstr @ fmt_Sprintf ''%s%v'' [AStr sep, AErr e] else errstr) errs"

definition joinerrs :: "string \<Rightarrow> error list \<Rightarrow> error" where
  "joinerrs sep errs =
     (let errstr = joinerrs_loop sep [] errs
      in if length errstr > 0 then fmt_Errorf ''%v'' [AStr (drop (length sep) errstr)]
         else None)"

text \<open>
  What the specification asks of the aggregator, in its own words: the messages of the
  non-nil inputs, in their original order, concatenated with the separator between them.
\<close>

fun messages :: "error list \<Rightarrow> string list" where
  "messages [] = []"
| "messages (None # errs) = messages errs"
| "messages (Some m # errs) = m # messages errs"

fun joined :: "string \<Rightarrow> string list \<Rightarrow> string" where
  "joined sep [] = []"
| "joined sep [m] = m"
| "joined sep (m # n # ms) = m @ sep @ joined sep (n # ms)"

section \<open>Launchers and executor handles\<close>

text \<open>
  What the execution environment (the operating system, or the remote host behind an ssh
  session) does with one command: the result of each call the Executor contract offers,
  and what the process writes to its output and to its error output, given what it reads
  from its input. It is the external collaborator of the orchestration code, so every
  theorem below quantifies over it.
\<close>

record process =
  stdoutpipe_err :: error
  stderrpipe_err :: error
  stdinpipe_err :: error
  start_err :: error
  wait_err :: error
  signal_err :: error
  out_of :: "string \<Rightarrow> string"
  errout_of :: "string \<Rightarrow> string"

text \<open>
  The two implementations of \<^verbatim>\<open>piper.Executor\<close>: \<^verbatim>\<open>local.exe\<close> (an \<^verbatim>\<open>exec.Cmd\<close> and the
  command text) and \<^verbatim>\<open>ssh.exe\<close> (a session, the launcher's description and the command
  text).
\<close>

datatype exe_impl = LocalExe | SshExe string

record executor =
  impl :: exe_impl
  command :: string
  behaviour :: process

definition exe_Command :: "executor \<Rightarrow> string" where
  "exe_Command e = command e"

definition exe_Errorf :: "executor \<Rightarrow> string \<Rightarrow> fmt_arg list \<Rightarrow> error" where
  "exe_Errorf e pat args =
     (case impl e of
        LocalExe \<Rightarrow>
          (let pfx = fmt_Sprintf ''cmd {%s} :'' [AStr (command e)]
           in fmt_Errorf ''%s: %v'' [AStr pfx, AErr (fmt_Errorf pat args)])
      | SshExe launchdesc \<Rightarrow>
          (let pfx = fmt_Sprintf ''cmd %s{%s} :'' [AStr launchdesc, AStr (command e)]
           in fmt_Errorf ''%s: %v'' [AStr pfx, AErr (fmt_Errorf pat args)]))"


text \<open>
  The ssh client a remote launcher wraps: the user and remote address of its connection,
  what \<^verbatim>\<open>NewSession\<close> returns, and the remote host.
\<close>

record ssh_client =
  conn_user :: string
  conn_remote :: string
  new_session :: error
  remote :: "string \<Rightarrow> process"

text \<open>
  The implementations of \<^verbatim>\<open>piper.Launcher\<close>: \<^verbatim>\<open>local.Launcher\<close> (an empty struct; the
  model attaches the machine on which it runs \<^verbatim>\<open>sh -c\<close>), \<^verbatim>\<open>ssh.Launcher\<close>, and
  \<^verbatim>\<open>piper.Verbose\<close>, which embeds another launcher. The log lines \<^verbatim>\<open>Verbose\<close> and the
  handles it builds print are not part of the model.
\<close>

datatype launcher = Local "string \<Rightarrow> process" | Ssh ssh_client | Verbose launcher

fun Launcher_String :: "launcher \<Rightarrow> string" where
  "Launcher_String (Local host) = ''local''"
| "Launcher_String (Ssh l) = fmt_Sprintf ''%s@%s'' [AStr (conn_user l), AStr (conn_remote l)]"
| "Launcher_String (Verbose v) = Launcher_String v"

fun Launcher_Errorf :: "launcher \<Rightarrow> string \<Rightarrow> fmt_arg list \<Rightarrow> error" where
  "Launcher_Errorf (Local host) pat args = fmt_Errorf pat [ASlice args]"
| "Launcher_Errorf (Ssh l) pat args =
     (let pfx = fmt_Sprintf ''%s: '' [AStr (Launcher_String (Ssh l))]
      in fmt_Errorf ''%s: %v'' [AStr pfx, AErr (fmt_Errorf pat args)])"
| "Launcher_Errorf (Verbose v) pat args = Launcher_Errorf v pat args"

text \<open>\<^verbatim>\<open>Launch\<close> returns a handle, or the (non-nil) error as \<open>Inl\<close> of its message.\<close>

fun Launcher_Launch :: "launcher \<Rightarrow> string \<Rightarrow> string + executor" where
  "Launcher_Launch (Local host) cmd =
     Inr \<lparr>impl = LocalExe, command = cmd, behaviour = host cmd\<rparr>"
| "Launcher_Launch (Ssh l) cmd =
     (case new_session l of
        Some err \<Rightarrow> Inl err
      | None \<Rightarrow> Inr \<lparr>impl = SshExe (Launcher_String (Ssh l)), command = cmd,
                      behaviour = remote l cmd\<rparr>)"
| "Launcher_Launch (Verbose v) cmd =
     (case Launcher_Launch v cmd of Inl err \<Rightarrow> Inl err | Inr exe \<Rightarrow> Inr exe)"

record launchable =
  Launcher :: launcher
  Cmd :: string

definition LaunchCmd :: "launchable \<Rightarrow> string + executor" where
  "LaunchCmd l = Launcher_Launch (Launcher l) (Cmd l)"

section \<open>Calls on a handle\<close>

text \<open>
  The orchestration code is observed through the calls it makes on a handle and on the
  streams the handle gave out, in the order it makes them.
\<close>

datatype endpoint = Stdout | Stderr | Stdin

datatype call = StdoutPipe | StderrPipe | StdinPipe | Start | Wait | Kill | Close endpoint

section \<open>The single-command harness\<close>

text \<open>
  The harness holds the handle and three pointers: the input text (nil when no input is
  fed) and the variables that receive the captured output and error output (nil when not
  captured; the model records only whether they are set).
\<close>

record harness =
  exe :: executor
  stdin :: "string option"
  stdout :: bool
  stderr :: bool

definition newHarness :: "executor \<Rightarrow> harness" where
  "newHarness e = \<lparr>exe = e, stdin = None, stdout = False, stderr = False\<rparr>"

definition startCmd :: "launcher \<Rightarrow> string \<Rightarrow> error + harness" where
  "startCmd lch cmd =
     (case Launcher_Launch lch cmd of
        Inl err \<Rightarrow> Inl (Launcher_Errorf lch ''error starting %s: %v'' [AStr cmd, AErr (Some err)])
      | Inr e \<Rightarrow> Inr (newHarness e))"

text \<open>
  Receiving \<open>n\<close> values from a channel on which the values \<open>arrivals\<close> arrive, in that
  order: the receiver blocks for ever (\<open>None\<close>) when fewer than \<open>n\<close> arrive.
\<close>

fun receive :: "nat \<Rightarrow> 'a list \<Rightarrow> 'a list option" where
  "receive 0 arrivals = Some []"
| "receive (Suc n) [] = None"
| "receive (Suc n) (a # arrivals) = map_option ((#) a) (receive n arrivals)"

text \<open>The final loop of \<^verbatim>\<open>harness.run\<close>: the first non-nil entry, nil when there is none.\<close>

fun first_error :: "error list \<Rightarrow> error" where
  "first_error [] = None"
| "first_error (e # errs) = (if e \<noteq> None then e else first_error errs)"

text \<open>
  \<^verbatim>\<open>harness.run\<close>. The drain and feed tasks run concurrently with it; \<open>io\<close> names the
  value each task sends on the completion channel when it is done, and \<open>order\<close> the order
  in which the tasks get done (each task once). The result is the error returned and the
  calls \<^verbatim>\<open>run\<close> itself makes on the handle and its streams; \<open>None\<close> when \<^verbatim>\<open>run\<close> never
  returns because a task it waits for never completes. Not modelled: the captured texts,
  and the close of the input stream that the feed task makes on its own once its
  completion value has been received (its place relative to \<^verbatim>\<open>Wait\<close> is not fixed).
\<close>

definition harness_run ::
  "harness \<Rightarrow> (endpoint \<Rightarrow> error) \<Rightarrow> endpoint list \<Rightarrow> (error \<times> call list) option" where
  "harness_run h io order =
     (let e = exe h; b = behaviour e in
      if stdout h \<and> stdoutpipe_err b \<noteq> None
      then Some (exe_Errorf e ''error opening stdout pipe: %v'' [AErr (stdoutpipe_err b)],
                 [StdoutPipe])
      else
      let tr1 = (if stdout h then [StdoutPipe] else []) in
      if stderr h \<and> stderrpipe_err b \<noteq> None
      then Some (exe_Errorf e ''error opening stderr pipe: %v'' [AErr (stderrpipe_err b)],
                 tr1 @ [StderrPipe] @ (if stdout h then [Close Stdout] else []))
      else
      let tr2 = tr1 @ (if stderr h then [StderrPipe] else []) in
      if stdin h \<noteq> None \<and> stdinpipe_err b \<noteq> None
      then Some (exe_Errorf e ''error opening stdin pipe: %v'' [AErr (stdinpipe_err b)],
                 tr2 @ [StdinPipe] @ (if stdout h then [Close Stdout] else [])
                     @ (if stderr h then [Close Stderr] else []))
      else
      let tr3 = tr2 @ (if stdin h \<noteq> None then [StdinPipe] else []);
          tasks = (if stdout h then [Stdout] else []) @ (if stderr h then [Stderr] else [])
                  @ (if stdin h \<noteq> None then [Stdin] else [])
      in
      if start_err b \<noteq> None
      then Some (exe_Errorf e ''error starting: %v'' [AErr (start_err b)], tr3 @ [Start])
      else
        (case receive (length tasks) (map io (filter (\<lambda>t. t \<in> set tasks) order)) of
           None \<Rightarrow> None
         | Some errs \<Rightarrow>
             (let err = wait_err b
              in Some (if err \<noteq> None
                       then exe_Errorf e ''completed with error: %v'' [AErr err]
                       else first_error errs,
                       tr3 @ [Start, Wait]))))"

definition RunCmd ::
  "launcher \<Rightarrow> string \<Rightarrow> (endpoint \<Rightarrow> error) \<Rightarrow> endpoint list \<Rightarrow> (error \<times> call list) option" where
  "RunCmd lch cmd io order =
     (case startCmd lch cmd of
        Inl err \<Rightarrow> Some (err, [])
      | Inr h \<Rightarrow> harness_run h io order)"

definition RunCmdStrIn ::
  "launcher \<Rightarrow> string \<Rightarrow> string \<Rightarrow> (endpoint \<Rightarrow> error) \<Rightarrow> endpoint list
     \<Rightarrow> (error \<times> call list) option" where
  "RunCmdStrIn lch cmd input io order =
     (case startCmd lch cmd of
        Inl err \<Rightarrow> Some (err, [])
      | Inr h \<Rightarrow> harness_run (h\<lparr>stdin := Some input\<rparr>) io order)"

definition RunCmdCapture ::
  "launcher \<Rightarrow> string \<Rightarrow> (endpoint \<Rightarrow> error) \<Rightarrow> endpoint list \<Rightarrow> (error \<times> call list) option" where
  "RunCmdCapture lch cmd io order =
     (case startCmd lch cmd of
        Inl err \<Rightarrow> Some (err, [])
      | Inr h \<Rightarrow> harness_run (h\<lparr>stdout := True, stderr := True\<rparr>) io order)"

definition RunCmdStrInCapture ::
  "launcher \<Rightarrow> string \<Rightarrow> string \<Rightarrow> (endpoint \<Rightarrow> error) \<Rightarrow> endpoint list
     \<Rightarrow> (error \<times> call list) option" where
  "RunCmdStrInCapture lch cmd input io order =
     (case startCmd lch cmd of
        Inl err \<Rightarrow> Some (err, [])
      | Inr h \<Rightarrow> harness_run (h\<lparr>stdin := Some input, stdout := True, stderr := True\<rparr>) io order)"

section \<open>The pipe orchestrator\<close>

datatype side = Src | Snk

text \<open>
  The four concurrent I/O tasks of a pipe: the copy from the source's output to the sink's
  input, and the drains of the source's error output, the sink's output and the sink's
  error output. \<^verbatim>\<open>io.Copy\<close> either moves everything up to end of file and returns nil, or
  returns an error after having moved some prefix.
\<close>

datatype task = CopyTask | SrcStderrDrain | SnkStdoutDrain | SnkStderrDrain

datatype io_outcome = Complete | Failed string nat

fun io_err :: "io_outcome \<Rightarrow> error" where
  "io_err Complete = None"
| "io_err (Failed msg n) = Some msg"

fun io_data :: "io_outcome \<Rightarrow> string \<Rightarrow> string" where
  "io_data Complete s = s"
| "io_data (Failed msg n) s = take n s"

text \<open>
  The \<^verbatim>\<open>source\<close> and \<^verbatim>\<open>sink\<close> structs hold a started handle together with its streams,
  buffers and completion channel; what flows through those is fixed by the processes and
  by the outcomes of the I/O tasks, so the model keeps the two handles.
\<close>

record pipe =
  src :: executor
  snk :: executor

record PipeResult =
  SrcStderr :: string
  SnkStderr :: string
  SnkStdout :: string
  Err :: error

definition PipeResult_Err :: "error \<Rightarrow> PipeResult" where
  "PipeResult_Err err = \<lparr>SrcStderr = [], SnkStderr = [], SnkStdout = [], Err = err\<rparr>"

definition pipesout :: "executor \<Rightarrow> error \<times> call list" where
  "pipesout e =
     (let b = behaviour e in
      if stdoutpipe_err b \<noteq> None
      then (exe_Errorf e ''error opening stdout pipe: %v'' [AErr (stdoutpipe_err b)],
            [StdoutPipe])
      else if stderrpipe_err b \<noteq> None
      then (exe_Errorf e ''error opening stderr pipe: %v'' [AErr (stderrpipe_err b)],
            [StdoutPipe, StderrPipe, Close Stdout])
      else (None, [StdoutPipe, StderrPipe]))"

definition send :: "executor \<Rightarrow> error \<times> call list" where
  "send e =
     (case pipesout e of
        (Some err, tr) \<Rightarrow> (Some err, tr)
      | (None, tr) \<Rightarrow>
          if start_err (behaviour e) \<noteq> None
          then (exe_Errorf e ''error starting pipe source: %v'' [AErr (start_err (behaviour e))],
                tr @ [Start])
          else (None, tr @ [Start]))"

definition recv :: "executor \<Rightarrow> error \<times> call list" where
  "recv e =
     (case pipesout e of
        (Some err, tr) \<Rightarrow> (Some err, tr)
      | (None, tr) \<Rightarrow>
          if stdinpipe_err (behaviour e) \<noteq> None
          then (exe_Errorf e ''error creating stdin pipe: %v'' [AErr (stdinpipe_err (behaviour e))],
                tr @ [StdinPipe])
          else if start_err (behaviour e) \<noteq> None
          then (exe_Errorf e ''error starting pipe sink: %v'' [AErr (start_err (behaviour e))],
                tr @ [StdinPipe, Start])
          else (None, tr @ [StdinPipe, Start]))"

text \<open>
  The collecting loop of \<^verbatim>\<open>pipe.readandwrite\<close>. \<open>order\<close> is the order in which the four
  tasks get done, that is the order in which the \<^verbatim>\<open>select\<close> receives their completion
  values: the copy's on \<^verbatim>\<open>errs\<close>, the source drain's on \<^verbatim>\<open>p.src.errchan\<close>, both sink
  drains' on \<^verbatim>\<open>p.snk.errchan\<close>. The loop blocks for ever (\<open>None\<close>) when no further value
  arrives before four have been counted.
\<close>

fun readandwrite_loop ::
  "(task \<Rightarrow> io_outcome) \<Rightarrow> error \<Rightarrow> nat \<Rightarrow> task list \<Rightarrow> (side \<times> call) list
     \<Rightarrow> (error \<times> (side \<times> call) list) option" where
  "readandwrite_loop io err dones [] tr = (if dones < 4 then None else Some (err, tr))"
| "readandwrite_loop io err dones (t # order) tr =
     (if dones < 4 then
        (case t of
           CopyTask \<Rightarrow>
             readandwrite_loop io
               (if io_err (io CopyTask) \<noteq> None
                then fmt_Errorf ''error piping: %v'' [AErr (io_err (io CopyTask))]
                else io_err (io CopyTask))
               (dones + 1) order (tr @ [(Snk, Close Stdin)])
         | SrcStderrDrain \<Rightarrow>
             readandwrite_loop io
               (if io_err (io SrcStderrDrain) \<noteq> None
                then fmt_Errorf ''source error: %v'' [AErr (io_err (io SrcStderrDrain))]
                else err)
               (dones + 1) order tr
         | SnkStdoutDrain \<Rightarrow>
             readandwrite_loop io
               (if io_err (io SnkStdoutDrain) \<noteq> None
                then fmt_Errorf ''sink error: %v'' [AErr (io_err (io SnkStdoutDrain))]
                else err)
               (dones + 1) order tr
         | SnkStderrDrain \<Rightarrow>
             readandwrite_loop io
               (if io_err (io SnkStderrDrain) \<noteq> None
                then fmt_Errorf ''sink error: %v'' [AErr (io_err (io SnkStderrDrain))]
                else err)
               (dones + 1) order tr)
      else Some (err, tr))"

definition readandwrite ::
  "(task \<Rightarrow> io_outcome) \<Rightarrow> task list \<Rightarrow> (error \<times> (side \<times> call) list) option" where
  "readandwrite io order = readandwrite_loop io None 0 order []"

text \<open>
  \<^verbatim>\<open>pipe.wait\<close> starts two goroutines. The one for the source calls \<^verbatim>\<open>Wait\<close> on the
  source and sends the (wrapped) result; the one for the sink calls \<^verbatim>\<open>Wait\<close> on the sink,
  on an error wraps it and calls \<^verbatim>\<open>Kill\<close> on the source, and sends the result. Each
  goroutine is the list of its steps.
\<close>

datatype wstep = Calls side call | Sends error

definition src_waiter :: "pipe \<Rightarrow> wstep list" where
  "src_waiter p =
     (let err = wait_err (behaviour (src p))
      in [Calls Src Wait,
          Sends (if err \<noteq> None then fmt_Errorf ''source exited with error: %v'' [AErr err]
                 else err)])"

definition snk_waiter :: "pipe \<Rightarrow> wstep list" where
  "snk_waiter p =
     (let err = wait_err (behaviour (snk p))
      in if err \<noteq> None
         then [Calls Snk Wait, Calls Src Kill,
               Sends (fmt_Errorf ''sink exited with error: %v'' [AErr err])]
         else [Calls Snk Wait, Sends err])"

text \<open>
  The scheduler: \<open>sched\<close> names the goroutine that takes the next step (\<open>Src\<close> the
  source's waiter, \<open>Snk\<close> the sink's). A goroutine that has finished yields to the other,
  and when the schedule is used up the remaining steps run, the source's first. Every
  schedule gives an interleaving of the two step lists, and every interleaving comes from
  a schedule.
\<close>

fun interleave :: "side list \<Rightarrow> 'a list \<Rightarrow> 'a list \<Rightarrow> 'a list" where
  "interleave sched [] bs = bs"
| "interleave sched as [] = as"
| "interleave [] as bs = as @ bs"
| "interleave (Src # sched) (a # as) bs = a # interleave sched as bs"
| "interleave (Snk # sched) as (b # bs) = b # interleave sched as bs"

fun sent :: "wstep list \<Rightarrow> error list" where
  "sent [] = []"
| "sent (Sends e # steps) = e # sent steps"
| "sent (Calls s c # steps) = sent steps"

fun called :: "wstep list \<Rightarrow> (side \<times> call) list" where
  "called [] = []"
| "called (Calls s c # steps) = (s, c) # called steps"
| "called (Sends e # steps) = called steps"

definition pipe_wait :: "pipe \<Rightarrow> side list \<Rightarrow> error \<times> (side \<times> call) list" where
  "pipe_wait p sched =
     (let steps = interleave sched (src_waiter p) (snk_waiter p)
      in (joinerrs ''; '' (sent steps), called steps))"

text \<open>The contents of the three buffers once all four tasks are done.\<close>

definition piped :: "pipe \<Rightarrow> (task \<Rightarrow> io_outcome) \<Rightarrow> string" where
  "piped p io = io_data (io CopyTask) (out_of (behaviour (src p)) [])"

definition src_stderr :: "pipe \<Rightarrow> (task \<Rightarrow> io_outcome) \<Rightarrow> string" where
  "src_stderr p io = io_data (io SrcStderrDrain) (errout_of (behaviour (src p)) [])"

definition snk_stdout :: "pipe \<Rightarrow> (task \<Rightarrow> io_outcome) \<Rightarrow> string" where
  "snk_stdout p io = io_data (io SnkStdoutDrain) (out_of (behaviour (snk p)) (piped p io))"

definition snk_stderr :: "pipe \<Rightarrow> (task \<Rightarrow> io_outcome) \<Rightarrow> string" where
  "snk_stderr p io = io_data (io SnkStderrDrain) (errout_of (behaviour (snk p)) (piped p io))"

definition pipe_run ::
  "pipe \<Rightarrow> (task \<Rightarrow> io_outcome) \<Rightarrow> task list \<Rightarrow> side list
     \<Rightarrow> (PipeResult \<times> (side \<times> call) list) option" where
  "pipe_run p io order sched =
     (case readandwrite io order of
        None \<Rightarrow> None
      | Some (rwerr, tr1) \<Rightarrow>
          (case pipe_wait p sched of
             (werr, tr2) \<Rightarrow>
               Some (\<lparr>SrcStderr = src_stderr p io, SnkStderr = snk_stderr p io,
                      SnkStdout = snk_stdout p io, Err = joinerrs ''; '' [rwerr, werr]\<rparr>,
                     tr1 @ tr2)))"

definition on :: "side \<Rightarrow> call list \<Rightarrow> (side \<times> call) list" where
  "on s tr = map (Pair s) tr"

definition Pipe ::
  "launchable \<Rightarrow> launchable \<Rightarrow> (task \<Rightarrow> io_outcome) \<Rightarrow> task list \<Rightarrow> side list
     \<Rightarrow> (PipeResult \<times> (side \<times> call) list) option" where
  "Pipe srclch snklch io order sched =
     (case LaunchCmd srclch of
        Inl err \<Rightarrow>
          Some (PipeResult_Err
                  (Launcher_Errorf (Launcher srclch) ''error creating pipe source: %v''
                     [AErr (Some err)]), [])
      | Inr srcexe \<Rightarrow>
     (case LaunchCmd snklch of
        Inl err \<Rightarrow>
          Some (PipeResult_Err
                  (Launcher_Errorf (Launcher snklch) ''error creating pipe sink: %v''
                     [AErr (Some err)]), [])
      | Inr snkexe \<Rightarrow>
     (case send srcexe of
        (Some err, tr1) \<Rightarrow> Some (PipeResult_Err (Some err), on Src tr1)
      | (None, tr1) \<Rightarrow>
     (case recv snkexe of
        (Some err, tr2) \<Rightarrow>
          Some (PipeResult_Err (Some err),
                on Src tr1 @ on Snk tr2 @ [(Src, Kill), (Src, Wait)])
      | (None, tr2) \<Rightarrow>
          (case pipe_run \<lparr>src = srcexe, snk = snkexe\<rparr> io order sched of
             None \<Rightarrow> None
           | Some (pr, tr3) \<Rightarrow> Some (pr, on Src tr1 @ on Snk tr2 @ tr3))))))"

section \<open>Example processes\<close>

text \<open>
  A command that opens, starts and exits without error and writes nothing; one that writes
  a fixed text; one that copies its input to its output; one that exits with an error; and a
  machine on which \<^verbatim>\<open>echo -n T\<close>, \<^verbatim>\<open>cat\<close> and \<^verbatim>\<open>false\<close> behave so.
\<close>

definition quiet :: process where
  "quiet = \<lparr>stdoutpipe_err = None, stderrpipe_err = None, stdinpipe_err = None,
            start_err = None, wait_err = None, signal_err = None,
            out_of = (\<lambda>input. []), errout_of = (\<lambda>input. [])\<rparr>"

definition echo :: "string \<Rightarrow> process" where
  "echo T = quiet\<lparr>out_of := (\<lambda>input. T)\<rparr>"

definition cat :: process where
  "cat = quiet\<lparr>out_of := (\<lambda>input. input)\<rparr>"

definition failing :: "string \<Rightarrow> process" where
  "failing msg = quiet\<lparr>wait_err := Some msg\<rparr>"

definition sh :: "string \<Rightarrow> process" where
  "sh cmd = (if cmd = ''cat'' then cat
             else if take 8 cmd = ''echo -n '' then echo (drop 8 cmd)
             else if cmd = ''false'' then failing ''exit status 1''
             else quiet)"

text \<open>
  A harness over a remote \<^verbatim>\<open>grep\<close> that exits with an error; it feeds input and captures
  both outputs.
\<close>

definition grep_harness :: harness where
  "grep_harness =
     \<lparr>exe = \<lparr>impl = SshExe ''u@h:22'', command = ''grep -q ba'',
              behaviour = failing ''exit status 1''\<rparr>,
      stdin = Some ''abc'', stdout = True, stderr = True\<rparr>"

text \<open>The same harness over a command whose input endpoint cannot be opened.\<close>

definition grep_harness_no_stdin :: harness where
  "grep_harness_no_stdin =
     grep_harness\<lparr>exe := (exe grep_harness)
       \<lparr>behaviour := quiet\<lparr>stdinpipe_err := Some ''too many open files''\<rparr>\<rparr>\<rparr>"




section \<open>Terms in which the properties are stated\<close>

text \<open>
  What a handle's \<^verbatim>\<open>Errorf\<close> puts in front of a message, read off the two
  implementations: the ssh handle's has the launcher's description and the command, the
  local handle's the command only.
\<close>

definition exe_context :: "executor \<Rightarrow> string" where
  "exe_context e =
     (case impl e of
        LocalExe \<Rightarrow> ''cmd {'' @ command e @ ''} :: ''
      | SshExe launchdesc \<Rightarrow> ''cmd '' @ launchdesc @ ''{'' @ command e @ ''} :: '')"

text \<open>
  The endpoints the caller of the harness asked for, in the order output, error output,
  input; the result of opening one, and the call that opens it.
\<close>

fun wanted :: "harness \<Rightarrow> endpoint \<Rightarrow> bool" where
  "wanted h Stdout = stdout h"
| "wanted h Stderr = stderr h"
| "wanted h Stdin = (stdin h \<noteq> None)"

definition requested :: "harness \<Rightarrow> endpoint list" where
  "requested h = filter (wanted h) [Stdout, Stderr, Stdin]"

fun open_err :: "executor \<Rightarrow> endpoint \<Rightarrow> error" where
  "open_err e Stdout = stdoutpipe_err (behaviour e)"
| "open_err e Stderr = stderrpipe_err (behaviour e)"
| "open_err e Stdin = stdinpipe_err (behaviour e)"

fun open_call :: "endpoint \<Rightarrow> call" where
  "open_call Stdout = StdoutPipe"
| "open_call Stderr = StderrPipe"
| "open_call Stdin = StdinPipe"

fun is_open :: "call \<Rightarrow> bool" where
  "is_open StdoutPipe = True"
| "is_open StderrPipe = True"
| "is_open StdinPipe = True"
| "is_open c = False"

text \<open>
  The requested endpoints that open without error before the first one that fails, and
  those the harness tries to open: the former and the first that fails, if any.
\<close>

definition opened :: "harness \<Rightarrow> endpoint list" where
  "opened h = takeWhile (\<lambda>ep. open_err (exe h) ep = None) (requested h)"

definition attempted :: "harness \<Rightarrow> endpoint list" where
  "attempted h = take (Suc (length (opened h))) (requested h)"

text \<open>
  The completion values the harness collects, in the order in which they arrive: one for
  each requested endpoint.
\<close>

definition signals :: "harness \<Rightarrow> (endpoint \<Rightarrow> error) \<Rightarrow> endpoint list \<Rightarrow> error list" where
  "signals h io order =
     take (length (requested h)) (map io (filter (\<lambda>t. t \<in> set (requested h)) order))"

section \<open>Formatting lemmas\<close>

lemma doPrintf_literal:
  "CHR ''%'' \<notin> set lit \<Longrightarrow>
   doPrintf (lit @ CHR ''%'' # pat) args = lit @ doPrintf (CHR ''%'' # pat) args"
proof (induction lit)
  case Nil
  then show ?case by simp
next
  case (Cons c lit)
  then show ?case by (cases lit) auto
qed

lemma Sprintf_sv: "fmt_Sprintf ''%s%v'' [AStr s, AErr (Some m)] = s @ m"
  by (simp add: fmt_Sprintf_def extraArgs_def)

lemma Sprintf_v: "fmt_Sprintf ''%v'' [AStr s] = s"
  by (simp add: fmt_Sprintf_def extraArgs_def)

lemma Sprintf_s_colon_v: "fmt_Sprintf ''%s: %v'' [AStr s, AErr (Some m)] = s @ '': '' @ m"
  by (simp add: fmt_Sprintf_def extraArgs_def)

lemma Sprintf_wrap_v:
  "CHR ''%'' \<notin> set lit \<Longrightarrow> fmt_Sprintf (lit @ ''%v'') [AErr (Some m)] = lit @ m"
  by (simp add: fmt_Sprintf_def doPrintf_literal extraArgs_def)

lemma exe_Errorf_eq: "exe_Errorf e pat args = Some (exe_context e @ fmt_Sprintf pat args)"
  by (simp add: exe_Errorf_def exe_context_def fmt_Errorf_def Sprintf_s_colon_v
      fmt_Sprintf_def extraArgs_def split: exe_impl.splits)

lemma ssh_Errorf_eq:
  "Launcher_Errorf (Ssh l) pat args =
     Some (Launcher_String (Ssh l) @ '': : '' @ fmt_Sprintf pat args)"
  by (simp add: fmt_Errorf_def Sprintf_s_colon_v fmt_Sprintf_def extraArgs_def)

section \<open>The error aggregator joins every message\<close>

lemma joinerrs_loop_eq:
  "joinerrs_loop sep acc errs = acc @ concat (map (\<lambda>m. sep @ m) (messages errs))"
  by (induction errs arbitrary: acc rule: messages.induct) (simp_all add: Sprintf_sv)

lemma drop_sep_joined:
  "ms \<noteq> [] \<Longrightarrow> drop (length sep) (concat (map (\<lambda>m. sep @ m) ms)) = joined sep ms"
  by (induction sep ms rule: joined.induct) simp_all

lemma messages_empty: "messages errs = [] \<longleftrightarrow> (\<forall>e\<in>set errs. e = None)"
  by (induction errs rule: messages.induct) simp_all

text \<open>
  With a separator that is not empty (the orchestrator always passes \<^verbatim>\<open>"; "\<close>) the
  aggregator returns nil exactly when no input carries a message, and the joined messages
  otherwise.
\<close>

lemma joinerrs_eq:
  "sep \<noteq> [] \<Longrightarrow> joinerrs sep errs =
     (if messages errs = [] then None else Some (joined sep (messages errs)))"
  by (simp add: joinerrs_def joinerrs_loop_eq Let_def fmt_Errorf_def Sprintf_v drop_sep_joined)

lemma joinerrs_nil: "(joinerrs ''; '' errs = None) = (\<forall>e\<in>set errs. e = None)"
  by (simp add: joinerrs_eq messages_empty)

text \<open>
  C3. For every list of errors, each possibly nil, the aggregator (with the separator the
  orchestrator uses) returns nil if and only if every input is nil; otherwise it returns
  one error whose message is the messages of all the non-nil inputs, in their original
  order, joined by the separator.
\<close>

theorem joinerrs_aggregates:
  "(joinerrs ''; '' errs = None) = (\<forall>e\<in>set errs. e = None) \<and>
   ((\<exists>e\<in>set errs. e \<noteq> None) \<longrightarrow>
      joinerrs ''; '' errs = Some (joined ''; '' (messages errs)))"
  by (simp add: joinerrs_eq messages_empty)

theorem joinerrs_aggregates_witness:
  "(\<exists>e\<in>set [Some ''a'', None, Some ''b'']. e \<noteq> None) \<and>
   joinerrs ''; '' [Some ''a'', None, Some ''b''] = Some ''a; b'' \<and>
   joinerrs ''; '' [None, None] = None"
  using joinerrs_aggregates [of "[Some ''a'', None, Some ''b'']"]
    joinerrs_aggregates [of "[None, None]"]
  by simp

section \<open>The local launcher\<close>

text \<open>
  C10. For every command string, \<^verbatim>\<open>Launch\<close> of the local launcher returns a handle for
  that command and a nil error: launching locally never fails.
\<close>

theorem local_Launch_never_fails:
  "\<exists>h. Launcher_Launch (Local host) cmd = Inr h \<and> exe_Command h = cmd \<and> impl h = LocalExe"
  by (simp add: exe_Command_def)

theorem local_Launch_never_fails_witness:
  "\<exists>h. Launcher_Launch (Local sh) ''no.such.command ('' = Inr h \<and>
       exe_Command h = ''no.such.command ('' \<and> impl h = LocalExe"
  using local_Launch_never_fails [of sh "''no.such.command (''"] by simp

text \<open>
  C9. The claim is that every launcher's \<^verbatim>\<open>Errorf\<close> returns the launcher's identity
  followed by the formatted message. The ssh launcher does (lemma \<open>ssh_Errorf_eq\<close>). The
  local launcher does not: it hands its operands to \<^verbatim>\<open>fmt.Errorf\<close> as one slice and puts
  nothing in front. For the pattern of \<^verbatim>\<open>startCmd\<close>, a command text and an error, the
  message is neither prefixed with \<^verbatim>\<open>local\<close> nor the message the pattern formats to.
\<close>

theorem local_Errorf_no_identity:
  "Launcher_Errorf (Local sh) ''error starting %s: %v'' [AStr ''nosuch'', AErr (Some ''boom'')]
     = Some ''error starting [nosuch boom]: %!v(MISSING)'' \<and>
   Launcher_String (Local sh) = ''local'' \<and>
   \<not> prefix (Launcher_String (Local sh)) ''error starting [nosuch boom]: %!v(MISSING)'' \<and>
   fmt_Sprintf ''error starting %s: %v'' [AStr ''nosuch'', AErr (Some ''boom'')]
     = ''error starting nosuch: boom''"
  by (simp add: fmt_Errorf_def fmt_Sprintf_def extraArgs_def)

section \<open>The collect phase of a pipe\<close>

text \<open>
  The loop returns exactly when four completion values arrive, and it reads the first
  four.
\<close>

lemma readandwrite_loop_returns:
  "(readandwrite_loop io err dones order tr \<noteq> None) = (4 - dones \<le> length order)"
  by (induction order arbitrary: err dones tr) (auto split: task.splits)

lemma readandwrite_returns: "(readandwrite io order \<noteq> None) = (4 \<le> length order)"
  using readandwrite_loop_returns [of io None 0 order "[]"] by (simp add: readandwrite_def)

lemma readandwrite_loop_take:
  "readandwrite_loop io err dones (take (4 - dones) order) tr
     = readandwrite_loop io err dones order tr"
proof (induction order arbitrary: err dones tr)
  case Nil
  then show ?case by simp
next
  case (Cons t order)
  show ?case
  proof (cases "dones < 4")
    case True
    then have "4 - dones = Suc (4 - (dones + 1))" by simp
    then show ?thesis using True Cons [of _ "dones + 1"] by (simp split: task.splits)
  next
    case False
    then show ?thesis by simp
  qed
qed

lemma readandwrite_first_four: "readandwrite io (take 4 order) = readandwrite io order"
  using readandwrite_loop_take [of io None 0 order "[]"] by (simp add: readandwrite_def)

lemma readandwrite_loop_clean:
  "\<forall>t. io_err (io t) = None \<Longrightarrow> 4 - dones \<le> length order \<Longrightarrow>
   \<exists>tr'. readandwrite_loop io None dones order tr = Some (None, tr')"
  by (induction order arbitrary: dones tr) (auto split: task.splits)

lemma readandwrite_clean:
  "\<forall>t. io_err (io t) = None \<Longrightarrow> 4 \<le> length order \<Longrightarrow>
   \<exists>tr. readandwrite io order = Some (None, tr)"
  by (simp add: readandwrite_def readandwrite_loop_clean)

text \<open>
  C1. The claim is that the collect phase waits for all four completion values and
  records the first non-nil error among them. It does wait for four (lemmas
  \<open>readandwrite_returns\<close>, \<open>readandwrite_first_four\<close>). The error is not the first: every
  non-nil drain error replaces the one recorded, and the value of the connecting copy
  replaces it even when that value is nil. With the source's error drain failing with
  \<^verbatim>\<open>e1\<close> and the sink's output drain with \<^verbatim>\<open>e2\<close>: when the copy is done first the loop
  returns the later error; when the copy is done after both, it returns nil.
\<close>

theorem readandwrite_keeps_last_error:
  "readandwrite
     ((\<lambda>t. Complete)(SrcStderrDrain := Failed ''e1'' 0, SnkStdoutDrain := Failed ''e2'' 0))
     [CopyTask, SrcStderrDrain, SnkStdoutDrain, SnkStderrDrain]
     = Some (Some ''sink error: e2'', [(Snk, Close Stdin)]) \<and>
   readandwrite
     ((\<lambda>t. Complete)(SrcStderrDrain := Failed ''e1'' 0, SnkStdoutDrain := Failed ''e2'' 0))
     [SrcStderrDrain, SnkStdoutDrain, CopyTask, SnkStderrDrain]
     = Some (None, [(Snk, Close Stdin)])"
  by (simp add: readandwrite_def fmt_Errorf_def fmt_Sprintf_def extraArgs_def)

text \<open>
  C2. The claim is that the result's error is nil only if both \<^verbatim>\<open>Wait\<close> calls returned
  nil and all four I/O tasks completed without error. Here both commands exit cleanly, the
  drain of the source's error output fails before the connecting copy is done, and the
  result's error is nil. (Lemma \<open>pipe_run_nil\<close> says what a nil error does imply.)
\<close>

theorem pipe_result_hides_drain_error:
  "Pipe \<lparr>Launcher = Local sh, Cmd = ''echo -n hello''\<rparr> \<lparr>Launcher = Local sh, Cmd = ''cat''\<rparr>
     ((\<lambda>t. Complete)(SrcStderrDrain := Failed ''read error'' 0))
     [SrcStderrDrain, CopyTask, SnkStdoutDrain, SnkStderrDrain] []
   = Some (\<lparr>SrcStderr = [], SnkStderr = [], SnkStdout = ''hello'', Err = None\<rparr>,
           [(Src, StdoutPipe), (Src, StderrPipe), (Src, Start),
            (Snk, StdoutPipe), (Snk, StderrPipe), (Snk, StdinPipe), (Snk, Start),
            (Snk, Close Stdin), (Src, Wait), (Snk, Wait)])"
  by (simp add: Pipe_def LaunchCmd_def send_def recv_def pipesout_def pipe_run_def
      readandwrite_def pipe_wait_def src_waiter_def snk_waiter_def joinerrs_def
      src_stderr_def snk_stderr_def snk_stdout_def piped_def on_def
      sh_def echo_def cat_def quiet_def)

section \<open>The harness: which error is reported\<close>

lemma receive_take: "n \<le> length xs \<Longrightarrow> receive n xs = Some (take n xs)"
  by (induction n xs rule: receive.induct) simp_all

lemma receive_None: "length xs < n \<Longrightarrow> receive n xs = None"
  by (induction n xs rule: receive.induct) simp_all

lemma first_error_dropWhile:
  "first_error errs = (case dropWhile (\<lambda>e. e = None) errs of [] \<Rightarrow> None | e # rest \<Rightarrow> e)"
  by (induction errs) simp_all

lemma in_requested: "(ep \<in> set (requested h)) = wanted h ep"
  by (cases ep) (simp_all add: requested_def)

lemma distinct_requested: "distinct (requested h)"
  by (simp add: requested_def)

lemma length_requested_le:
  assumes "set (requested h) \<subseteq> set order"
  shows "length (requested h) \<le> length (filter (\<lambda>t. t \<in> set (requested h)) order)"
proof -
  have "length (requested h) = card (set (requested h))"
    using distinct_requested by (simp add: distinct_card)
  also have "\<dots> \<le> card (set (filter (\<lambda>t. t \<in> set (requested h)) order))"
    using assms by (intro card_mono) auto
  also have "\<dots> \<le> length (filter (\<lambda>t. t \<in> set (requested h)) order)"
    by (rule card_length)
  finally show ?thesis .
qed

lemma tasks_requested:
  "(if stdout h then [Stdout] else []) @ (if stderr h then [Stderr] else [])
     @ (if stdin h \<noteq> None then [Stdin] else []) = requested h"
  by (simp add: requested_def)

text \<open>What \<^verbatim>\<open>run\<close> does once every requested endpoint has opened and \<^verbatim>\<open>Start\<close> succeeded.\<close>

lemma harness_run_started:
  assumes "\<forall>ep\<in>set (requested h). open_err (exe h) ep = None"
    and "start_err (behaviour (exe h)) = None"
  shows "harness_run h io order =
     (case receive (length (requested h))
             (map io (filter (\<lambda>t. t \<in> set (requested h)) order)) of
        None \<Rightarrow> None
      | Some errs \<Rightarrow>
          Some (if wait_err (behaviour (exe h)) \<noteq> None
                then exe_Errorf (exe h) ''completed with error: %v''
                       [AErr (wait_err (behaviour (exe h)))]
                else first_error errs,
                map open_call (requested h) @ [Start, Wait]))"
proof -
  have w: "wanted h ep \<longrightarrow> open_err (exe h) ep = None" for ep
    using assms(1) by (simp add: in_requested)
  have o: "\<not> (stdout h \<and> stdoutpipe_err (behaviour (exe h)) \<noteq> None)"
    "\<not> (stderr h \<and> stderrpipe_err (behaviour (exe h)) \<noteq> None)"
    "\<not> (stdin h \<noteq> None \<and> stdinpipe_err (behaviour (exe h)) \<noteq> None)"
    using w [of Stdout] w [of Stderr] w [of Stdin] by (cases "stdin h"; simp)+
  have tr: "(if stdout h then [StdoutPipe] else []) @ (if stderr h then [StderrPipe] else [])
     @ (if stdin h \<noteq> None then [StdinPipe] else []) = map open_call (requested h)"
    by (simp add: requested_def)
  show ?thesis
    unfolding harness_run_def Let_def
    using o assms(2) tr
    by (simp only: if_False tasks_requested append_assoc) (simp add: tr [symmetric])
qed

lemma Sprintf_completed:
  "fmt_Sprintf ''completed with error: %v'' [AErr (Some w)] = ''completed with error: '' @ w"
  using Sprintf_wrap_v [of "''completed with error: ''" w] by simp

text \<open>
  Precedence. When every requested endpoint opened, \<^verbatim>\<open>Start\<close> succeeded and every launched
  task gets done, the harness returns; a non-nil \<^verbatim>\<open>Wait\<close> error is the one reported, behind
  what the handle's \<^verbatim>\<open>Errorf\<close> puts in front, whatever the tasks sent; only when \<^verbatim>\<open>Wait\<close>
  returns nil is a task's error reported, and then the first non-nil one in the order in
  which the completion values were collected.
\<close>

lemma harness_wait_error_wins:
  assumes "\<forall>ep\<in>set (requested h). open_err (exe h) ep = None"
    and "start_err (behaviour (exe h)) = None"
    and "set (requested h) \<subseteq> set order"
  shows "\<exists>tr. harness_run h io order =
     Some (case wait_err (behaviour (exe h)) of
             Some w \<Rightarrow> Some (exe_context (exe h) @ ''completed with error: '' @ w)
           | None \<Rightarrow>
               (case dropWhile (\<lambda>e. e = None) (signals h io order) of
                  [] \<Rightarrow> None
                | e # rest \<Rightarrow> e),
           tr)"
proof -
  have "receive (length (requested h)) (map io (filter (\<lambda>t. t \<in> set (requested h)) order))
          = Some (signals h io order)"
    using length_requested_le [OF assms(3)] by (simp add: receive_take signals_def)
  then show ?thesis
    using harness_run_started [OF assms(1,2), of io order]
    by (cases "wait_err (behaviour (exe h))")
       (simp_all add: exe_Errorf_eq Sprintf_completed first_error_dropWhile)
qed

lemma harness_wait_error_wins_example:
  "list_all (\<lambda>ep. open_err (exe grep_harness) ep = None) (requested grep_harness) \<and>
   start_err (behaviour (exe grep_harness)) = None \<and>
   set (requested grep_harness) \<subseteq> set [Stdin, Stdout, Stderr] \<and>
   (\<exists>tr. harness_run grep_harness ((\<lambda>t. None)(Stdin := Some ''broken pipe''))
            [Stdin, Stdout, Stderr]
      = Some (Some ''cmd u@h:22{grep -q ba} :: completed with error: exit status 1'', tr)) \<and>
   (\<exists>tr. harness_run (grep_harness\<lparr>exe := (exe grep_harness)\<lparr>behaviour := quiet\<rparr>\<rparr>)
            ((\<lambda>t. None)(Stdin := Some ''broken pipe'', Stderr := Some ''read error''))
            [Stdout, Stdin, Stderr]
      = Some (Some ''broken pipe'', tr))"
proof -
  let ?h2 = "grep_harness\<lparr>exe := (exe grep_harness)\<lparr>behaviour := quiet\<rparr>\<rparr>"
  have r: "requested grep_harness = [Stdout, Stderr, Stdin]"
    "requested ?h2 = [Stdout, Stderr, Stdin]"
    by (simp_all add: grep_harness_def requested_def)
  have a: "\<forall>ep\<in>set (requested grep_harness). open_err (exe grep_harness) ep = None"
    "\<forall>ep\<in>set (requested ?h2). open_err (exe ?h2) ep = None"
    by (simp_all add: r) (simp_all add: grep_harness_def failing_def quiet_def)
  have b: "start_err (behaviour (exe grep_harness)) = None"
    "start_err (behaviour (exe ?h2)) = None"
    by (simp_all add: grep_harness_def failing_def quiet_def)
  have c: "set (requested grep_harness) \<subseteq> set [Stdin, Stdout, Stderr]"
    "set (requested ?h2) \<subseteq> set [Stdout, Stdin, Stderr]"
    by (simp_all add: r)
  have s2: "signals ?h2 ((\<lambda>t. None)(Stdin := Some ''broken pipe'', Stderr := Some ''read error''))
              [Stdout, Stdin, Stderr] = [None, Some ''broken pipe'', Some ''read error'']"
    by (simp add: signals_def r)
  have w1: "\<exists>tr. harness_run grep_harness ((\<lambda>t. None)(Stdin := Some ''broken pipe''))
              [Stdin, Stdout, Stderr]
      = Some (Some ''cmd u@h:22{grep -q ba} :: completed with error: exit status 1'', tr)"
    using harness_wait_error_wins [OF a(1) b(1) c(1),
        of "(\<lambda>t. None)(Stdin := Some ''broken pipe'')"]
    by (simp add: grep_harness_def failing_def quiet_def exe_context_def)
  have w2: "\<exists>tr. harness_run ?h2
            ((\<lambda>t. None)(Stdin := Some ''broken pipe'', Stderr := Some ''read error''))
            [Stdout, Stdin, Stderr]
      = Some (Some ''broken pipe'', tr)"
    using harness_wait_error_wins [OF a(2) b(2) c(2),
        of "(\<lambda>t. None)(Stdin := Some ''broken pipe'', Stderr := Some ''read error'')"]
    unfolding s2 by (simp add: grep_harness_def quiet_def)
  show ?thesis
    unfolding list_all_iff using a(1) b(1) c(1) w1 w2 by blast
qed

text \<open>
  C4. The claim is that a non-nil \<^verbatim>\<open>Wait\<close> error is the one reported, wrapped with command
  and launcher context, ahead of any task error. The precedence holds (lemma
  \<open>harness_wait_error_wins\<close>). The wrapping is the handle's \<^verbatim>\<open>Errorf\<close>, which the
  \<^verbatim>\<open>Executor\<close> interface documents as prepending a description of the command and of the
  launcher: the ssh handle prepends both, the local handle the command only. Running
  \<^verbatim>\<open>false\<close> through the local launcher reports the \<^verbatim>\<open>Wait\<close> error with no launcher in
  the message.
\<close>

theorem local_wait_error_lacks_launcher:
  "RunCmd (Local sh) ''false'' (\<lambda>t. None) []
     = Some (Some ''cmd {false} :: completed with error: exit status 1'', [Start, Wait]) \<and>
   Launcher_String (Local sh) = ''local'' \<and>
   \<not> sublist ''local'' ''cmd {false} :: completed with error: exit status 1''"
  by (simp add: RunCmd_def startCmd_def newHarness_def harness_run_def sh_def failing_def
      quiet_def exe_Errorf_def fmt_Errorf_def fmt_Sprintf_def extraArgs_def sublist_code)

section \<open>The harness: opening the endpoints\<close>

lemma run_stdout_fails:
  assumes "stdout h" and "stdoutpipe_err (behaviour (exe h)) = Some m"
  shows "\<exists>msg. harness_run h io order =
           Some (Some msg, map open_call (attempted h) @ map Close (opened h))"
proof -
  have "opened h = []" "attempted h = [Stdout]"
    using assms by (simp_all add: opened_def attempted_def requested_def)
  then show ?thesis
    using assms by (simp add: harness_run_def exe_Errorf_eq)
qed

lemma run_stderr_fails:
  assumes "\<not> (stdout h \<and> stdoutpipe_err (behaviour (exe h)) \<noteq> None)"
    and "stderr h" and "stderrpipe_err (behaviour (exe h)) = Some m"
  shows "\<exists>msg. harness_run h io order =
           Some (Some msg, map open_call (attempted h) @ map Close (opened h))"
proof -
  have "opened h = (if stdout h then [Stdout] else [])"
    using assms by (simp add: opened_def requested_def)
  moreover from this have "attempted h = (if stdout h then [Stdout] else []) @ [Stderr]"
    using assms by (simp add: attempted_def requested_def)
  ultimately show ?thesis
    using assms by (simp add: harness_run_def exe_Errorf_eq Let_def)
qed

lemma run_stdin_fails:
  assumes "\<not> (stdout h \<and> stdoutpipe_err (behaviour (exe h)) \<noteq> None)"
    and "\<not> (stderr h \<and> stderrpipe_err (behaviour (exe h)) \<noteq> None)"
    and "stdin h \<noteq> None" and "stdinpipe_err (behaviour (exe h)) = Some m"
  shows "\<exists>msg. harness_run h io order =
           Some (Some msg, map open_call (attempted h) @ map Close (opened h))"
proof -
  have o: "opened h = (if stdout h then [Stdout] else []) @ (if stderr h then [Stderr] else [])"
    using assms by (simp add: opened_def requested_def)
  have "attempted h =
          (if stdout h then [Stdout] else []) @ (if stderr h then [Stderr] else []) @ [Stdin]"
    using assms unfolding attempted_def o by (simp add: requested_def)
  with o show ?thesis
    using assms by (simp add: harness_run_def exe_Errorf_eq Let_def)
qed

lemma harness_run_open_fails:
  assumes "\<exists>ep\<in>set (requested h). open_err (exe h) ep \<noteq> None"
  shows "\<exists>msg. harness_run h io order =
           Some (Some msg, map open_call (attempted h) @ map Close (opened h))"
proof -
  obtain ep where ep: "wanted h ep" "open_err (exe h) ep \<noteq> None"
    using assms by (auto simp: in_requested)
  show ?thesis
  proof (cases "stdout h \<and> stdoutpipe_err (behaviour (exe h)) \<noteq> None")
    case True
    then show ?thesis using run_stdout_fails by blast
  next
    case a: False
    show ?thesis
    proof (cases "stderr h \<and> stderrpipe_err (behaviour (exe h)) \<noteq> None")
      case True
      then show ?thesis using run_stderr_fails [OF a] by blast
    next
      case b: False
      have "stdin h \<noteq> None \<and> stdinpipe_err (behaviour (exe h)) \<noteq> None"
        using ep a b by (cases ep) auto
      then show ?thesis using run_stdin_fails [OF a b] by blast
    qed
  qed
qed

lemma harness_run_start_fails:
  assumes "\<forall>ep\<in>set (requested h). open_err (exe h) ep = None"
    and "start_err (behaviour (exe h)) \<noteq> None"
  shows "\<exists>msg. harness_run h io order = Some (Some msg, map open_call (requested h) @ [Start])"
proof -
  have w: "wanted h ep \<longrightarrow> open_err (exe h) ep = None" for ep
    using assms(1) by (simp add: in_requested)
  have o: "\<not> (stdout h \<and> stdoutpipe_err (behaviour (exe h)) \<noteq> None)"
    "\<not> (stderr h \<and> stderrpipe_err (behaviour (exe h)) \<noteq> None)"
    "\<not> (stdin h \<noteq> None \<and> stdinpipe_err (behaviour (exe h)) \<noteq> None)"
    using w [of Stdout] w [of Stderr] w [of Stdin] by (cases "stdin h"; simp)+
  have tr: "(if stdout h then [StdoutPipe] else []) @ (if stderr h then [StderrPipe] else [])
     @ (if stdin h \<noteq> None then [StdinPipe] else []) = map open_call (requested h)"
    by (simp add: requested_def)
  show ?thesis
    unfolding harness_run_def Let_def
    using o assms(2) tr
    by (simp only: if_False tasks_requested append_assoc) (simp add: tr [symmetric] exe_Errorf_eq)
qed

lemma filter_is_open_opens: "filter is_open (map open_call eps) = map open_call eps"
proof (induction eps)
  case Nil
  then show ?case by simp
next
  case (Cons ep eps)
  then show ?case by (cases ep) simp_all
qed

lemma filter_is_open_closes: "filter is_open (map Close eps) = []"
  by (induction eps) simp_all

lemma attempted_all:
  assumes "\<forall>ep\<in>set (requested h). open_err (exe h) ep = None"
  shows "attempted h = requested h"
proof -
  have "opened h = requested h"
    using assms by (simp add: opened_def)
  then show ?thesis by (simp add: attempted_def)
qed

lemma harness_run_opens:
  assumes "harness_run h io order = Some (err, tr)"
  shows "filter is_open tr = map open_call (attempted h)"
proof (cases "\<exists>ep\<in>set (requested h). open_err (exe h) ep \<noteq> None")
  case True
  then show ?thesis
    using harness_run_open_fails [OF True, of io order] assms
    by (auto simp: filter_is_open_opens filter_is_open_closes)
next
  case False
  then have ok: "\<forall>ep\<in>set (requested h). open_err (exe h) ep = None" by simp
  show ?thesis
  proof (cases "start_err (behaviour (exe h)) = None")
    case True
    then show ?thesis
      using harness_run_started [OF ok True, of io order] assms
      by (auto simp: filter_is_open_opens attempted_all [OF ok] split: option.splits)
  next
    case False
    then show ?thesis
      using harness_run_start_fails [OF ok False, of io order] assms
      by (auto simp: filter_is_open_opens attempted_all [OF ok])
  qed
qed

lemma Start_not_open: "Start \<notin> set (map open_call eps)"
proof (induction eps)
  case Nil
  then show ?case by simp
next
  case (Cons ep eps)
  then show ?case by (cases ep) simp_all
qed

text \<open>
  C5. The harness opens the requested endpoints in the order output, error output, input,
  and no others, up to the first that fails to open. If one fails, the harness returns an
  error at once: after the failed open it closes every endpoint it had opened, and it
  makes no other call, so \<^verbatim>\<open>Start\<close> is never called.
\<close>

theorem harness_opens_in_order:
  "(\<forall>err tr. harness_run h io order = Some (err, tr) \<longrightarrow>
      filter is_open tr = map open_call (attempted h)) \<and>
   ((\<exists>ep\<in>set (requested h). open_err (exe h) ep \<noteq> None) \<longrightarrow>
      (\<exists>msg tr. harness_run h io order = Some (Some msg, tr) \<and>
         tr = map open_call (attempted h) @ map Close (opened h) \<and>
         Start \<notin> set tr))"
proof (intro conjI allI impI)
  fix err tr
  assume "harness_run h io order = Some (err, tr)"
  then show "filter is_open tr = map open_call (attempted h)"
    by (rule harness_run_opens)
next
  assume "\<exists>ep\<in>set (requested h). open_err (exe h) ep \<noteq> None"
  then obtain msg where
    "harness_run h io order = Some (Some msg, map open_call (attempted h) @ map Close (opened h))"
    using harness_run_open_fails by blast
  moreover have "Start \<notin> set (map open_call (attempted h) @ map Close (opened h))"
    using Start_not_open [of "attempted h"] by auto
  ultimately show "\<exists>msg tr. harness_run h io order = Some (Some msg, tr) \<and>
         tr = map open_call (attempted h) @ map Close (opened h) \<and> Start \<notin> set tr"
    by blast
qed

theorem harness_opens_in_order_witness:
  "(\<exists>ep\<in>set (requested grep_harness_no_stdin). open_err (exe grep_harness_no_stdin) ep \<noteq> None) \<and>
   harness_run grep_harness_no_stdin (\<lambda>t. None) [] =
     Some (Some ''cmd u@h:22{grep -q ba} :: error opening stdin pipe: too many open files'',
           [StdoutPipe, StderrPipe, StdinPipe, Close Stdout, Close Stderr]) \<and>
   attempted grep_harness_no_stdin = [Stdout, Stderr, Stdin] \<and> opened grep_harness_no_stdin = [Stdout, Stderr]"
proof -
  have r: "requested grep_harness_no_stdin = [Stdout, Stderr, Stdin]"
    by (simp add: grep_harness_no_stdin_def grep_harness_def requested_def)
  have o: "opened grep_harness_no_stdin = [Stdout, Stderr]"
    by (simp add: opened_def r) (simp add: grep_harness_no_stdin_def grep_harness_def quiet_def)
  have a: "attempted grep_harness_no_stdin = [Stdout, Stderr, Stdin]"
    by (simp add: attempted_def o r)
  have f: "\<exists>ep\<in>set (requested grep_harness_no_stdin). open_err (exe grep_harness_no_stdin) ep \<noteq> None"
    by (simp add: r) (simp add: grep_harness_no_stdin_def grep_harness_def quiet_def)
  have "\<exists>msg. harness_run grep_harness_no_stdin (\<lambda>t. None) [] =
     Some (Some msg, [StdoutPipe, StderrPipe, StdinPipe, Close Stdout, Close Stderr])"
    using harness_opens_in_order [of grep_harness_no_stdin "\<lambda>t. None" "[]"] f by (simp add: a o)
  moreover have "fst (the (harness_run grep_harness_no_stdin (\<lambda>t. None) [])) =
     Some ''cmd u@h:22{grep -q ba} :: error opening stdin pipe: too many open files''"
    by (simp add: harness_run_def grep_harness_no_stdin_def grep_harness_def quiet_def exe_Errorf_def
        fmt_Errorf_def fmt_Sprintf_def extraArgs_def)
  ultimately show ?thesis using f a o by auto
qed

section \<open>A pipe whose sink cannot be set up\<close>


lemma recv_ok:
  "fst (recv e) = None \<Longrightarrow> snd (recv e) = [StdoutPipe, StderrPipe, StdinPipe, Start]"
  by (auto simp: recv_def pipesout_def exe_Errorf_eq Let_def split: if_splits)




section \<open>The termination phase of a pipe\<close>

text \<open>The schedules give exactly the interleavings of the two goroutines' steps.\<close>

lemma append_in_shuffles: "as @ bs \<in> shuffles as bs"
  by (induction as) (simp_all add: Cons_in_shuffles_leftI)

lemma interleave_shuffles: "interleave sched as bs \<in> shuffles as bs"
proof (induction sched as bs rule: interleave.induct)
  case (3 a as b bs)
  then show ?case using append_in_shuffles [of "a # as" "b # bs"] by simp
next
  case (4 sched a as bs)
  then show ?case by (simp add: Cons_in_shuffles_leftI)
next
  case (5 sched as b bs)
  then show ?case by (simp add: Cons_in_shuffles_rightI)
qed simp_all

lemma shuffles_interleave: "zs \<in> shuffles as bs \<Longrightarrow> \<exists>sched. interleave sched as bs = zs"
proof (induction as bs arbitrary: zs rule: shuffles.induct)
  case (1 ys)
  then show ?case by (auto intro: exI [of _ "[]"])
next
  case (2 xs)
  then show ?case by (cases xs) (auto intro: exI [of _ "[]"])
next
  case (3 x xs y ys)
  from "3.prems" consider
    (l) zs' where "zs = x # zs'" "zs' \<in> shuffles xs (y # ys)" |
    (r) zs' where "zs = y # zs'" "zs' \<in> shuffles (x # xs) ys"
    by auto
  then show ?case
  proof cases
    case l
    then obtain sched where "interleave sched xs (y # ys) = zs'"
      using "3.IH"(1) by blast
    then have "interleave (Src # sched) (x # xs) (y # ys) = zs"
      using l by simp
    then show ?thesis by blast
  next
    case r
    then obtain sched where "interleave sched (x # xs) ys = zs'"
      using "3.IH"(2) by blast
    then have "interleave (Snk # sched) (x # xs) (y # ys) = zs"
      using r by simp
    then show ?thesis by blast
  qed
qed

lemma called_Cons:
  "called (a # steps) = (case a of Calls s c \<Rightarrow> [(s, c)] | Sends e \<Rightarrow> []) @ called steps"
  by (cases a) simp_all

lemma called_append: "called (xs @ ys) = called xs @ called ys"
  by (induction xs rule: called.induct) simp_all

lemma sent_Cons:
  "sent (a # steps) = (case a of Calls s c \<Rightarrow> [] | Sends e \<Rightarrow> [e]) @ sent steps"
  by (cases a) simp_all

lemma sent_append: "sent (xs @ ys) = sent xs @ sent ys"
  by (induction xs rule: sent.induct) simp_all

lemma count_called_interleave:
  "count_list (called (interleave sched as bs)) x
     = count_list (called as) x + count_list (called bs) x"
  by (induction sched as bs rule: interleave.induct)
     (simp_all add: called_Cons called_append)

lemma set_sent_interleave:
  "set (sent (interleave sched as bs)) = set (sent as) \<union> set (sent bs)"
  by (induction sched as bs rule: interleave.induct)
     (auto simp: sent_Cons sent_append)

lemma pipe_wait_calls: "snd (pipe_wait p sched) = called (interleave sched (src_waiter p) (snk_waiter p))"
  by (simp add: pipe_wait_def Let_def)

lemma called_src_waiter: "called (src_waiter p) = [(Src, Wait)]"
  by (simp add: src_waiter_def Let_def)

lemma called_snk_waiter:
  "called (snk_waiter p) =
     (if wait_err (behaviour (snk p)) \<noteq> None then [(Snk, Wait), (Src, Kill)] else [(Snk, Wait)])"
  by (simp add: snk_waiter_def Let_def)

text \<open>
  C7. Under every schedule of the two waiting goroutines, \<^verbatim>\<open>Wait\<close> is called once on the
  source and once on the sink; no order is fixed between the two calls, since a schedule
  exists for either order; and \<^verbatim>\<open>Kill\<close> is called on the source exactly when the sink's
  \<^verbatim>\<open>Wait\<close> returns a non-nil error.
\<close>

theorem pipe_wait_waits_both:
  "count_list (snd (pipe_wait p sched)) (Src, Wait) = 1 \<and>
   count_list (snd (pipe_wait p sched)) (Snk, Wait) = 1 \<and>
   (\<exists>s tr. snd (pipe_wait p s) = (Src, Wait) # (Snk, Wait) # tr) \<and>
   (\<exists>s tr. snd (pipe_wait p s) = (Snk, Wait) # (Src, Wait) # tr) \<and>
   ((Src, Kill) \<in> set (snd (pipe_wait p sched))) = (wait_err (behaviour (snk p)) \<noteq> None)"
proof (intro conjI)
  show "count_list (snd (pipe_wait p sched)) (Src, Wait) = 1"
    by (simp add: pipe_wait_calls count_called_interleave called_src_waiter called_snk_waiter)
  show "count_list (snd (pipe_wait p sched)) (Snk, Wait) = 1"
    by (simp add: pipe_wait_calls count_called_interleave called_src_waiter called_snk_waiter)
  have "\<exists>tr. snd (pipe_wait p [Src]) = (Src, Wait) # (Snk, Wait) # tr"
    by (simp add: pipe_wait_def src_waiter_def snk_waiter_def Let_def)
  then show "\<exists>s tr. snd (pipe_wait p s) = (Src, Wait) # (Snk, Wait) # tr" by blast
  have "\<exists>tr. snd (pipe_wait p [Snk]) = (Snk, Wait) # (Src, Wait) # tr"
    by (simp add: pipe_wait_def src_waiter_def snk_waiter_def Let_def)
  then show "\<exists>s tr. snd (pipe_wait p s) = (Snk, Wait) # (Src, Wait) # tr" by blast
  have "((Src, Kill) \<in> set (snd (pipe_wait p sched)))
          = (count_list (snd (pipe_wait p sched)) (Src, Kill) \<noteq> 0)"
    by (simp add: count_list_0_iff)
  also have "\<dots> = (wait_err (behaviour (snk p)) \<noteq> None)"
    by (simp add: pipe_wait_calls count_called_interleave called_src_waiter called_snk_waiter)
  finally show "((Src, Kill) \<in> set (snd (pipe_wait p sched)))
                  = (wait_err (behaviour (snk p)) \<noteq> None)" .
qed

theorem pipe_wait_waits_both_witness:
  "snd (pipe_wait \<lparr>src = \<lparr>impl = LocalExe, command = ''yes'', behaviour = quiet\<rparr>,
                   snk = \<lparr>impl = LocalExe, command = ''false'', behaviour = sh ''false''\<rparr>\<rparr> [Snk, Snk])
     = [(Snk, Wait), (Src, Kill), (Src, Wait)] \<and>
   wait_err (behaviour \<lparr>impl = LocalExe, command = ''false'', behaviour = sh ''false''\<rparr>) \<noteq> None \<and>
   (Src, Kill) \<in> set (snd (pipe_wait \<lparr>src = \<lparr>impl = LocalExe, command = ''yes'', behaviour = quiet\<rparr>,
                   snk = \<lparr>impl = LocalExe, command = ''false'', behaviour = sh ''false''\<rparr>\<rparr> [Snk, Snk]))"
proof -
  let ?p = "\<lparr>src = \<lparr>impl = LocalExe, command = ''yes'', behaviour = quiet\<rparr>,
            snk = \<lparr>impl = LocalExe, command = ''false'', behaviour = sh ''false''\<rparr>\<rparr>"
  have w: "wait_err (behaviour (snk ?p)) \<noteq> None"
    by (simp add: sh_def failing_def)
  then have "(Src, Kill) \<in> set (snd (pipe_wait ?p [Snk, Snk]))"
    using pipe_wait_waits_both [of ?p "[Snk, Snk]"] by blast
  moreover have "snd (pipe_wait ?p [Snk, Snk]) = [(Snk, Wait), (Src, Kill), (Src, Wait)]"
    by (simp add: pipe_wait_def src_waiter_def snk_waiter_def sh_def failing_def quiet_def)
  ultimately show ?thesis using w by simp
qed

section \<open>A pipe that succeeds\<close>

lemma pipe_wait_clean:
  assumes "wait_err (behaviour (src p)) = None" and "wait_err (behaviour (snk p)) = None"
  shows "fst (pipe_wait p sched) = None"
proof -
  have "set (sent (interleave sched (src_waiter p) (snk_waiter p))) = {None}"
    using assms by (simp add: set_sent_interleave src_waiter_def snk_waiter_def)
  then have "messages (sent (interleave sched (src_waiter p) (snk_waiter p))) = []"
    by (simp add: messages_empty)
  then show ?thesis
    by (simp add: pipe_wait_def Let_def joinerrs_eq)
qed

text \<open>
  C8. For any text \<open>T\<close>: when the source writes exactly \<open>T\<close> to its output, the sink
  copies its input to its output, both ends of the pipe are set up, both commands exit
  without error, all four I/O tasks complete and their four completion values arrive,
  \<^verbatim>\<open>Pipe\<close> returns a result whose \<^verbatim>\<open>SnkStdout\<close> is \<open>T\<close> and whose \<^verbatim>\<open>Err\<close> is nil.
\<close>

theorem pipe_echo_cat:
  assumes "LaunchCmd srclch = Inr srcexe" and "LaunchCmd snklch = Inr snkexe"
    and "fst (send srcexe) = None" and "fst (recv snkexe) = None"
    and "out_of (behaviour srcexe) [] = T"
    and "\<forall>input. out_of (behaviour snkexe) input = input"
    and "wait_err (behaviour srcexe) = None" and "wait_err (behaviour snkexe) = None"
    and "\<forall>t. io t = Complete"
    and "4 \<le> length order"
  shows "\<exists>pr tr. Pipe srclch snklch io order sched = Some (pr, tr) \<and>
                 SnkStdout pr = T \<and> Err pr = None"
proof -
  let ?p = "\<lparr>src = srcexe, snk = snkexe\<rparr>"
  obtain tr1 where s: "send srcexe = (None, tr1)"
    using assms(3) by (cases "send srcexe") simp
  obtain tr2 where r: "recv snkexe = (None, tr2)"
    using assms(4) by (cases "recv snkexe") simp
  obtain tr3 where rw: "readandwrite io order = Some (None, tr3)"
    using readandwrite_clean [of io order] assms(9,10) by auto
  obtain tr4 where w: "pipe_wait ?p sched = (None, tr4)"
    using pipe_wait_clean [of ?p sched] assms(7,8) by (cases "pipe_wait ?p sched") simp
  have out: "snk_stdout ?p io = T"
    using assms(5,6,9) by (simp add: snk_stdout_def piped_def)
  have "joinerrs ''; '' [None, None] = None"
    by (simp add: joinerrs_eq)
  then have "pipe_run ?p io order sched
          = Some (\<lparr>SrcStderr = src_stderr ?p io, SnkStderr = snk_stderr ?p io,
                   SnkStdout = T, Err = None\<rparr>, tr3 @ tr4)"
    by (simp add: pipe_run_def rw w out)
  then show ?thesis
    by (simp add: Pipe_def assms(1,2) s r)
qed

theorem pipe_echo_cat_witness:
  "\<exists>pr tr. Pipe \<lparr>Launcher = Local sh, Cmd = ''echo -n 1804289383''\<rparr>
                \<lparr>Launcher = Verbose (Local sh), Cmd = ''cat''\<rparr>
                (\<lambda>t. Complete) [SnkStderrDrain, SrcStderrDrain, CopyTask, SnkStdoutDrain] [Snk, Src]
              = Some (pr, tr) \<and>
            SnkStdout pr = ''1804289383'' \<and> Err pr = None"
proof -
  let ?srcexe = "\<lparr>impl = LocalExe, command = ''echo -n 1804289383'', behaviour = echo ''1804289383''\<rparr>"
  let ?snkexe = "\<lparr>impl = LocalExe, command = ''cat'', behaviour = cat\<rparr>"
  have a: "LaunchCmd \<lparr>Launcher = Local sh, Cmd = ''echo -n 1804289383''\<rparr> = Inr ?srcexe"
    by (simp add: LaunchCmd_def sh_def)
  have b: "LaunchCmd \<lparr>Launcher = Verbose (Local sh), Cmd = ''cat''\<rparr> = Inr ?snkexe"
    by (simp add: LaunchCmd_def sh_def)
  have c: "fst (send ?srcexe) = None"
    by (simp add: send_def pipesout_def echo_def quiet_def)
  have d: "fst (recv ?snkexe) = None"
    by (simp add: recv_def pipesout_def cat_def quiet_def)
  have e: "out_of (behaviour ?srcexe) [] = ''1804289383''"
    by (simp add: echo_def)
  have f: "\<forall>input. out_of (behaviour ?snkexe) input = input"
    by (simp add: cat_def)
  have g: "wait_err (behaviour ?srcexe) = None" "wait_err (behaviour ?snkexe) = None"
    by (simp_all add: echo_def cat_def quiet_def)
  have h: "\<forall>t. (\<lambda>t. Complete) t = Complete" by simp
  have i: "4 \<le> length [SnkStderrDrain, SrcStderrDrain, CopyTask, SnkStdoutDrain]" by simp
  show ?thesis
    using pipe_echo_cat [OF a b c d e f g h i, of "[Snk, Src]"] .
qed

section \<open>What a nil error of a pipe implies\<close>

text \<open>
  The result's error is nil exactly when both \<^verbatim>\<open>Wait\<close> calls returned nil and the collect
  phase recorded no error.
\<close>

lemma pipe_wait_nil:
  "(fst (pipe_wait p sched) = None)
     = (wait_err (behaviour (src p)) = None \<and> wait_err (behaviour (snk p)) = None)"
  by (auto simp: pipe_wait_def Let_def joinerrs_nil set_sent_interleave src_waiter_def
      snk_waiter_def fmt_Errorf_def)

lemma pipe_run_nil:
  assumes "pipe_run p io order sched = Some (pr, tr)"
  shows "(Err pr = None) =
     (wait_err (behaviour (src p)) = None \<and> wait_err (behaviour (snk p)) = None \<and>
      (\<exists>tr1. readandwrite io order = Some (None, tr1)))"
proof -
  obtain rwerr tr1 where rw: "readandwrite io order = Some (rwerr, tr1)"
    using assms by (auto simp: pipe_run_def split: option.splits)
  obtain werr tr2 where w: "pipe_wait p sched = (werr, tr2)"
    by (cases "pipe_wait p sched")
  have "Err pr = joinerrs ''; '' [rwerr, werr]"
    using assms by (auto simp: pipe_run_def rw w)
  moreover have "(werr = None)
     = (wait_err (behaviour (src p)) = None \<and> wait_err (behaviour (snk p)) = None)"
    using pipe_wait_nil [of p sched] w by simp
  ultimately show ?thesis
    by (auto simp: joinerrs_nil rw)
qed

end
